theory Spec2Isabelle
  imports Main
begin

section \<open>JavaScript values, promises and effects\<close>

text \<open>
  The values that configuration constants, event fields and collaborator results take
  in the two scripts. Strings are sequences of code units below 256; objects are
  association lists from property names to values.
\<close>

datatype jsval =
    JUndefined
  | JNull
  | JBool bool
  | JStr string
  | JObj "(string \<times> jsval) list"

text \<open>\<open>String(v)\<close>: the coercion applied to the argument of \<open>equalsIgnoreCase\<close>.\<close>

fun js_String :: "jsval \<Rightarrow> string" where
  "js_String JUndefined = ''undefined''"
| "js_String JNull = ''null''"
| "js_String (JBool b) = (if b then ''true'' else ''false'')"
| "js_String (JStr s) = s"
| "js_String (JObj fs) = ''[object Object]''"

text \<open>The values that are not objects.\<close>

fun primitive :: "jsval \<Rightarrow> bool" where
  "primitive (JObj fs) = False"
| "primitive v = True"

text \<open>
  \<open>String.prototype.toLowerCase\<close> on code units below 256: the upper-case letters are
  \<open>A\<close>..\<open>Z\<close> (65..90) and the Latin-1 capitals 192..222 without the multiplication
  sign 215; each is 32 below its lower-case letter.
\<close>

definition toLowerCase_char :: "char \<Rightarrow> char" where
  "toLowerCase_char c =
     (let n = (of_char c :: nat)
      in if (65 \<le> n \<and> n \<le> 90) \<or> (192 \<le> n \<and> n \<le> 222 \<and> n \<noteq> 215)
         then char_of (n + 32) else c)"

definition toLowerCase :: "string \<Rightarrow> string" where
  "toLowerCase s = map toLowerCase_char s"

text \<open>
  \<^verbatim>\<open>String.prototype.equalsIgnoreCase = function(compareWith){
    var _self = this.toLowerCase(), _compareWith = String( compareWith ).toLowerCase();
    return _self == _compareWith; }\<close>
\<close>

definition equalsIgnoreCase :: "string \<Rightarrow> jsval \<Rightarrow> bool" where
  "equalsIgnoreCase this compareWith =
     (let self = toLowerCase this;
          compareWith' = toLowerCase (js_String compareWith)
      in self = compareWith')"

text \<open>
  What a rejected promise carries: a \<open>TypeError\<close> raised by the script itself (reading a
  property of \<open>undefined\<close> or \<open>null\<close>), the reason a collaborator rejected with, or the
  error \<open>new BigNumber\<close> throws for a value that is not a number.
\<close>

datatype js_error = TypeError string | Reason jsval | NotANumber jsval

datatype 'a promise = Resolves 'a | Rejects js_error

text \<open>
  \<open>v.k\<close> for the two property names the scripts read from a result's \<open>data\<close>
  (\<open>erc20Address\<close>, \<open>balance\<close>): a missing property of an object and any such property
  of a boolean or string is \<open>undefined\<close>; on \<open>undefined\<close> and \<open>null\<close> the read throws.
\<close>

fun getProp :: "jsval \<Rightarrow> string \<Rightarrow> js_error + jsval" where
  "getProp JUndefined k = Inl (TypeError k)"
| "getProp JNull k = Inl (TypeError k)"
| "getProp (JBool b) k = Inr JUndefined"
| "getProp (JStr s) k = Inr JUndefined"
| "getProp (JObj fs) k = Inr (case map_of fs k of None \<Rightarrow> JUndefined | Some v \<Rightarrow> v)"

text \<open>The values a property can be read from without a \<open>TypeError\<close>.\<close>

fun object_coercible :: "jsval \<Rightarrow> bool" where
  "object_coercible JUndefined = False"
| "object_coercible JNull = False"
| "object_coercible v = True"

text \<open>
  The object a contract-interaction call resolves with. The scripts read only its
  \<open>data\<close>; \<open>success\<close> tells whether the call reports success or an error, which the
  scripts never inspect.
\<close>

record response =
  success :: bool
  data :: jsval

text \<open>
  The two values the processor builds with \<open>responseHelper\<close> (lib/formatter/response):
  \<open>responseHelper.error(code, message)\<close> and \<open>responseHelper.successWithData(data)\<close>.
\<close>

datatype pipeline_result =
    responseHelper_error string string
  | responseHelper_successWithData jsval

text \<open>
  A value of bignumber.js, named by the numeric string it was built from. Such a value
  is built by \<open>new_BigNumber\<close> only, which throws for everything else.
\<close>

datatype bignumber = BigNumber string

text \<open>
  \<open>new BigNumber(v)\<close>. bignumber.js is a library outside the repository: the test it
  applies to a string (its grammar of numbers) is the parameter \<open>isNumeric\<close>. A string
  that passes gives the value; a string that fails, and \<open>undefined\<close>, \<open>null\<close>, a boolean
  or an object (none of which reads as a number), makes the constructor throw.
\<close>

fun new_BigNumber :: "(string \<Rightarrow> bool) \<Rightarrow> jsval \<Rightarrow> js_error + bignumber" where
  "new_BigNumber isNumeric (JStr s) =
     (if isNumeric s then Inr (BigNumber s) else Inl (NotANumber (JStr s)))"
| "new_BigNumber isNumeric v = Inl (NotANumber v)"

text \<open>\<open>new brandedTokenKlass({ERC20: address})\<close>, the handle of one branded token.\<close>

record selectedMember =
  ERC20 :: jsval

datatype brandedToken = brandedTokenKlass selectedMember

datatype log_level = Log | Step | Win | Err

text \<open>
  Everything a run does to the outside, in the order it does it: calls of the console
  logger and calls of the contract-interaction modules with their arguments.
\<close>

datatype effect =
    Logger log_level "jsval list"
  | ProcessStaking string string string
  | ProcessMinting string string string
  | RegisteredTokenProperty string
  | Claim brandedToken string string string
  | BalanceOf string
  | Approve string string string bignumber bool

fun is_chain_call :: "effect \<Rightarrow> bool" where
  "is_chain_call (Logger l args) = False"
| "is_chain_call e = True"

definition chain_calls :: "effect list \<Rightarrow> effect list" where
  "chain_calls tr = filter is_chain_call tr"


text \<open>
  The modules the scripts require: the address and constant configuration
  (\<open>coreAddresses\<close>, \<open>coreConstants\<close>) and the contract-interaction objects. Each
  interaction returns a promise, which resolves with a response or rejects.
\<close>

record env =
  getAddressForUser :: "string \<Rightarrow> string"
  getPassphraseForUser :: "string \<Rightarrow> string"
  getAddressForContract :: "string \<Rightarrow> string"
  OST_OPENSTUTILITY_ST_PRIME_UUID :: jsval
  openSTValue_processStaking :: "string \<Rightarrow> string \<Rightarrow> string \<Rightarrow> response promise"
  openSTUtility_processMinting :: "string \<Rightarrow> string \<Rightarrow> string \<Rightarrow> response promise"
  openSTUtility_registeredTokenProperty :: "string \<Rightarrow> response promise"
  brandedToken_claim :: "brandedToken \<Rightarrow> string \<Rightarrow> string \<Rightarrow> string \<Rightarrow> response promise"
  simpleToken_balanceOf :: "string \<Rightarrow> response promise"
  simpleToken_approve ::
    "string \<Rightarrow> string \<Rightarrow> string \<Rightarrow> bignumber \<Rightarrow> bool \<Rightarrow> response promise"

text \<open>The \<open>StakingIntentConfirmed\<close> event as web3 delivers it.\<close>

record returnValues =
  rv_stakingIntentHash :: string
  rv_staker :: string
  rv_beneficiary :: string
  rv_uuid :: string

record eventObj =
  returnValues :: returnValues

section \<open>The stake and mint processor\<close>

text \<open>
  \<open>processor\<close> of executables/inter_comm/stake_and_mint_processor.js. The result is the
  trace of effects and the state the returned promise settles in. An \<open>await\<close> of a
  rejected promise throws inside the \<open>async\<close> function, which has no \<open>try\<close>: the
  returned promise rejects with the same reason and nothing after the \<open>await\<close> runs.
\<close>

definition processor :: "env \<Rightarrow> eventObj \<Rightarrow> effect list \<times> pipeline_result promise" where
  "processor e eventObj =
     (let rv = returnValues eventObj;
          stakingIntentHash = rv_stakingIntentHash rv;
          staker = rv_staker rv;
          beneficiary = rv_beneficiary rv;
          uuid = rv_uuid rv;
          stakerAddress = getAddressForUser e ''staker'';
          stakerPassphrase = getPassphraseForUser e ''staker''
      in
      if \<not> equalsIgnoreCase stakerAddress (JStr staker) then
        ([], Resolves (responseHelper_error ''e_ic_samp_1''
                ''staker is not same as the internal staker account.''))
      else
        let t1 = [Logger Step [JStr stakingIntentHash, JStr '' :: performing processStaking''],
                  ProcessStaking stakerAddress stakerPassphrase stakingIntentHash]
        in
        case openSTValue_processStaking e stakerAddress stakerPassphrase stakingIntentHash of
          Rejects x \<Rightarrow> (t1, Rejects x)
        | Resolves r1 \<Rightarrow>
            let t2 = t1 @
                  [Logger Win [JStr stakingIntentHash, JStr '' :: performed processStaking''],
                   Logger Step [JStr stakingIntentHash, JStr '' :: performing processMinting''],
                   ProcessMinting stakerAddress stakerPassphrase stakingIntentHash]
            in
            case openSTUtility_processMinting e stakerAddress stakerPassphrase
                   stakingIntentHash of
              Rejects x \<Rightarrow> (t2, Rejects x)
            | Resolves r2 \<Rightarrow>
                let t3 = t2 @
                      [Logger Win [JStr stakingIntentHash, JStr '' :: performed processMinting''],
                       Logger Step [JStr stakingIntentHash, JStr '' :: performing claim'']];
                    done = (\<lambda>t. (t @ [Logger Win [JStr stakingIntentHash,
                                                      JStr '' :: performed claim'']],
                                 Resolves (responseHelper_successWithData
                                   (JObj [(''staking_intent_hash'', JStr stakingIntentHash)]))))
                in
                if equalsIgnoreCase uuid (OST_OPENSTUTILITY_ST_PRIME_UUID e) then done t3
                else
                  let t4 = t3 @ [RegisteredTokenProperty uuid] in
                  case openSTUtility_registeredTokenProperty e uuid of
                    Rejects x \<Rightarrow> (t4, Rejects x)
                  | Resolves registeredOnUCResult \<Rightarrow>
                      (case getProp (data registeredOnUCResult) ''erc20Address'' of
                         Inl x \<Rightarrow> (t4, Rejects x)
                       | Inr erc20Address \<Rightarrow>
                           let brandedToken = brandedTokenKlass \<lparr>ERC20 = erc20Address\<rparr>;
                               t5 = t4 @ [Claim brandedToken stakerAddress stakerPassphrase
                                            beneficiary]
                           in
                           case brandedToken_claim e brandedToken stakerAddress
                                  stakerPassphrase beneficiary of
                             Rejects x \<Rightarrow> (t5, Rejects x)
                           | Resolves r3 \<Rightarrow> done t5))"

text \<open>
  The three calls the processor awaits before the claim, at the arguments it passes,
  and how a promise settled: \<open>resolved\<close> (not rejected) and \<open>succeeded\<close> (resolved with a
  response that reports success).
\<close>

definition stage1 :: "env \<Rightarrow> eventObj \<Rightarrow> response promise" where
  "stage1 e eventObj =
     openSTValue_processStaking e (getAddressForUser e ''staker'')
       (getPassphraseForUser e ''staker'') (rv_stakingIntentHash (returnValues eventObj))"

definition stage2 :: "env \<Rightarrow> eventObj \<Rightarrow> response promise" where
  "stage2 e eventObj =
     openSTUtility_processMinting e (getAddressForUser e ''staker'')
       (getPassphraseForUser e ''staker'') (rv_stakingIntentHash (returnValues eventObj))"

definition token_lookup :: "env \<Rightarrow> eventObj \<Rightarrow> response promise" where
  "token_lookup e eventObj =
     openSTUtility_registeredTokenProperty e (rv_uuid (returnValues eventObj))"

fun resolved :: "'a promise \<Rightarrow> bool" where
  "resolved (Resolves r) = True"
| "resolved (Rejects x) = False"

fun succeeded :: "response promise \<Rightarrow> bool" where
  "succeeded (Resolves r) = success r"
| "succeeded (Rejects x) = False"

text \<open>The step of the pipeline a chain call belongs to (0 for anything else).\<close>

fun step_of :: "effect \<Rightarrow> nat" where
  "step_of (ProcessStaking a p h) = 1"
| "step_of (ProcessMinting a p h) = 2"
| "step_of (RegisteredTokenProperty u) = 3"
| "step_of (Claim t a p b) = 4"
| "step_of e = 0"

definition invoked :: "nat \<Rightarrow> effect list \<Rightarrow> bool" where
  "invoked n tr = list_ex (\<lambda>x. step_of x = n) tr"

section \<open>The event subscription\<close>

text \<open>
  The state the callbacks act on: the queue held by \<open>eventQueueManager\<close> and the lines
  written to the console logger.
\<close>

record 'q app =
  eventQueue :: 'q
  console :: "effect list"

text \<open>
  \<open>onEvent\<close> hands the event to \<open>eventQueueManager.addEditEventInQueue\<close>, a method of
  lib/web3/events/queue_manager, taken here as the parameter \<open>addEditEventInQueue\<close>.
\<close>

definition onEvent :: "(eventObj \<Rightarrow> 'q \<Rightarrow> 'q) \<Rightarrow> eventObj \<Rightarrow> 'q app \<Rightarrow> 'q app" where
  "onEvent addEditEventInQueue eventObj s =
     s\<lparr>eventQueue := addEditEventInQueue eventObj (eventQueue s)\<rparr>"

definition onEventSubscriptionError :: "jsval \<Rightarrow> 'q app \<Rightarrow> 'q app" where
  "onEventSubscriptionError error s =
     s\<lparr>console := console s @
          [Logger Log [JStr ''onEventSubscriptionError triggered''], Logger Err [error]]\<rparr>"

text \<open>
  The emitter returned by \<open>completeContract.events.StakingIntentConfirmed({})\<close> after
  the three \<open>.on(...)\<close> registrations, and the notifications the transport delivers.
\<close>

record 's subscription =
  on_error :: "jsval \<Rightarrow> 's \<Rightarrow> 's"
  on_data :: "eventObj \<Rightarrow> 's \<Rightarrow> 's"
  on_changed :: "eventObj \<Rightarrow> 's \<Rightarrow> 's"

datatype notification = Error_n jsval | Data_n eventObj | Changed_n eventObj

definition listenToDesiredEvent ::
  "(jsval \<Rightarrow> 's \<Rightarrow> 's) \<Rightarrow> (eventObj \<Rightarrow> 's \<Rightarrow> 's) \<Rightarrow> (eventObj \<Rightarrow> 's \<Rightarrow> 's) \<Rightarrow> 's subscription" where
  "listenToDesiredEvent onError onData onChange =
     \<lparr>on_error = onError, on_data = onData, on_changed = onChange\<rparr>"

fun emit :: "'s subscription \<Rightarrow> notification \<Rightarrow> 's \<Rightarrow> 's" where
  "emit sub (Error_n x) s = on_error sub x s"
| "emit sub (Data_n ev) s = on_data sub ev s"
| "emit sub (Changed_n ev) s = on_changed sub ev s"

definition bindEvents ::
  "(eventObj \<Rightarrow> 'q \<Rightarrow> 'q) \<Rightarrow> 'q app \<Rightarrow> 'q app subscription \<times> 'q app" where
  "bindEvents addEditEventInQueue s =
     (let s1 = s\<lparr>console := console s @
                  [Logger Log [JStr ''bindEvents binding StakingIntentConfirmed'']]\<rparr>;
          sub = listenToDesiredEvent
                  onEventSubscriptionError
                  (onEvent addEditEventInQueue)
                  (onEvent addEditEventInQueue);
          s2 = s1\<lparr>console := console s1 @ [Logger Log [JStr ''bindEvents done'']]\<rparr>
      in (sub, s2))"

fun is_error_n :: "notification \<Rightarrow> bool" where
  "is_error_n (Error_n x) = True"
| "is_error_n n = False"

definition deliver :: "'s subscription \<Rightarrow> notification list \<Rightarrow> 's \<Rightarrow> 's" where
  "deliver sub ns s = fold (emit sub) ns s"

section \<open>The delay queue\<close>

text \<open>
  Modelled from the spec: the delay queue of lib/web3/events/queue_manager, which is
  not among the sources. A queued event has an identity key, its payload, the height
  it was observed at and one of five states (spec, section 3).
\<close>

datatype entry_state = Pending | Due | Processing | Done | Failed

record 'p QueuedEvent =
  identityKey :: string
  payload :: 'p
  observedHeight :: int
  state :: entry_state

text \<open>
  Modelled from the spec: an entry of the delay queue is live while it is neither
  \<open>Done\<close> nor \<open>Failed\<close>, that is while it is \<open>Pending\<close>, \<open>Due\<close> or \<open>Processing\<close>.
\<close>

definition live :: "'p QueuedEvent \<Rightarrow> bool" where
  "live x = (state x = Pending \<or> state x = Due \<or> state x = Processing)"

definition has_live :: "string \<Rightarrow> 'p QueuedEvent list \<Rightarrow> bool" where
  "has_live k q = list_ex (\<lambda>x. identityKey x = k \<and> live x) q"

definition live_count :: "string \<Rightarrow> 'p QueuedEvent list \<Rightarrow> nat" where
  "live_count k q = length (filter (\<lambda>x. identityKey x = k \<and> live x) q)"

text \<open>
  Modelled from the spec: \<open>enqueue(event)\<close> of the delay queue (section 4.2) computes
  the identity key; with no live entry for it a new \<open>Pending\<close> entry is inserted with
  the event as payload and the current height, otherwise the call is a no-op. The
  queue is the list of its entries in insertion order.
\<close>

definition enqueue ::
  "('p \<Rightarrow> string) \<Rightarrow> 'p \<Rightarrow> int \<Rightarrow> 'p QueuedEvent list \<Rightarrow> 'p QueuedEvent list" where
  "enqueue key_of event currentHeight q =
     (let k = key_of event
      in if has_live k q then q
         else q @ [\<lparr>identityKey = k, payload = event,
                    observedHeight = currentHeight, state = Pending\<rparr>])"

text \<open>
  Modelled from the spec: \<open>tick(currentHeight)\<close> of the delay queue turns every
  \<open>Pending\<close> entry with \<open>currentHeight - observedHeight >= delayBlocks\<close> into \<open>Due\<close>.
\<close>

definition tick :: "int \<Rightarrow> int \<Rightarrow> 'p QueuedEvent list \<Rightarrow> 'p QueuedEvent list" where
  "tick delayBlocks currentHeight q =
     map (\<lambda>x. if state x = Pending \<and> currentHeight - observedHeight x \<ge> delayBlocks
               then x\<lparr>state := Due\<rparr> else x) q"

text \<open>
  Modelled from the spec: \<open>claim()\<close> of the delay queue selects the oldest \<open>Due\<close>
  entry, turns it into \<open>Processing\<close> and returns it, or returns none.
\<close>

fun claim :: "'p QueuedEvent list \<Rightarrow> 'p QueuedEvent option \<times> 'p QueuedEvent list" where
  "claim [] = (None, [])"
| "claim (x # xs) =
     (if state x = Due then (Some (x\<lparr>state := Processing\<rparr>), x\<lparr>state := Processing\<rparr> # xs)
      else (case claim xs of (r, xs') \<Rightarrow> (r, x # xs')))"

text \<open>
  Modelled from the spec: \<open>complete(identityKey, result)\<close> of the delay queue turns
  the \<open>Processing\<close> entry of that key into \<open>Done\<close> for a success result and \<open>Failed\<close>
  for an error result; the entry is then no longer live (it has left the active index).
\<close>

fun result_state :: "pipeline_result \<Rightarrow> entry_state" where
  "result_state (responseHelper_successWithData d) = Done"
| "result_state (responseHelper_error c m) = Failed"

definition complete ::
  "string \<Rightarrow> pipeline_result \<Rightarrow> 'p QueuedEvent list \<Rightarrow> 'p QueuedEvent list" where
  "complete k result q =
     map (\<lambda>x. if identityKey x = k \<and> state x = Processing
               then x\<lparr>state := result_state result\<rparr> else x) q"

text \<open>
  Modelled from the spec: the identity key of a queued event, a string derived from the
  event's immutable payload; for the \<open>StakingIntentConfirmed\<close> event, its intent hash.
\<close>

definition event_identityKey :: "eventObj \<Rightarrow> string" where
  "event_identityKey eventObj = rv_stakingIntentHash (returnValues eventObj)"

text \<open>
  Modelled from the spec: the four operations of the delay queue as one step function,
  and a run of any sequence of them.
\<close>

datatype 'p queue_op =
    Enqueue 'p int
  | Tick int
  | Claim_op
  | Complete string pipeline_result

fun queue_step ::
  "('p \<Rightarrow> string) \<Rightarrow> int \<Rightarrow> 'p queue_op \<Rightarrow> 'p QueuedEvent list \<Rightarrow> 'p QueuedEvent list" where
  "queue_step key_of delayBlocks (Enqueue event h) q = enqueue key_of event h q"
| "queue_step key_of delayBlocks (Tick h) q = tick delayBlocks h q"
| "queue_step key_of delayBlocks Claim_op q = snd (claim q)"
| "queue_step key_of delayBlocks (Complete k result) q = complete k result q"

definition queue_run ::
  "('p \<Rightarrow> string) \<Rightarrow> int \<Rightarrow> 'p queue_op list \<Rightarrow> 'p QueuedEvent list \<Rightarrow> 'p QueuedEvent list" where
  "queue_run key_of delayBlocks ops q = fold (queue_step key_of delayBlocks) ops q"

section \<open>The stake approval service\<close>

text \<open>
  \<open>getSTBalance\<close> of services/stake_and_mint/approveOpenStValueContract.js. In the
  \<open>then\<close> callback the balance is read first (a \<open>TypeError\<close> when \<open>data\<close> is \<open>undefined\<close> or
  \<open>null\<close>), then \<open>logger.win\<close> is called, then \<open>new BigNumber\<close> is applied, which may
  throw; either throw rejects the promise.
\<close>

definition getSTBalance ::
  "(string \<Rightarrow> bool) \<Rightarrow> env \<Rightarrow> string \<Rightarrow> effect list \<times> bignumber promise" where
  "getSTBalance isNumeric e address =
     (let t1 = [Logger Step [JStr ''Getting ST Balance of Staker account: '', JStr address],
                BalanceOf address]
      in case simpleToken_balanceOf e address of
           Rejects x \<Rightarrow> (t1, Rejects x)
         | Resolves result \<Rightarrow>
             (case getProp (data result) ''balance'' of
                Inl x \<Rightarrow> (t1, Rejects x)
              | Inr stBalance \<Rightarrow>
                  let t2 = t1 @ [Logger Win [JStr ''ST Balance of Staker account: '',
                                             JStr address, JStr '' obtained.'']]
                  in case new_BigNumber isNumeric stBalance of
                       Inl x \<Rightarrow> (t2, Rejects x)
                     | Inr big \<Rightarrow> (t2, Resolves big)))"

text \<open>
  \<open>approve\<close>: the last argument \<open>true\<close> asks the interaction not to wait for the
  transaction to be mined.
\<close>

definition approve ::
  "env \<Rightarrow> string \<Rightarrow> string \<Rightarrow> bignumber \<Rightarrow> effect list \<times> response promise" where
  "approve e stakerAddress passphrase toApproveAmount =
     (let openSTValueContractAddress = getAddressForContract e ''openSTValue''
      in ([Approve stakerAddress passphrase openSTValueContractAddress toApproveAmount True],
          simpleToken_approve e stakerAddress passphrase openSTValueContractAddress
            toApproveAmount True))"

definition approveOpenStValueContract ::
  "(string \<Rightarrow> bool) \<Rightarrow> env \<Rightarrow> effect list \<times> response promise" where
  "approveOpenStValueContract isNumeric e =
     (let stakerAddress = getAddressForUser e ''staker'';
          stakerPassphrase = getPassphraseForUser e ''staker''
      in case getSTBalance isNumeric e stakerAddress of
           (t, Rejects x) \<Rightarrow> (t, Rejects x)
         | (t, Resolves bigSTBalance) \<Rightarrow>
             (case approve e stakerAddress stakerPassphrase bigSTBalance of
                (t', p) \<Rightarrow> (t @ t', p)))"

fun is_approve :: "effect \<Rightarrow> bool" where
  "is_approve (Approve a p c n w) = True"
| "is_approve x = False"

section \<open>Sample configuration and events\<close>

text \<open>
  A configuration whose four pipeline collaborators and two token collaborators settle
  as given, and an event staked from the configured account in another letter case.
\<close>

definition ok :: "jsval \<Rightarrow> response promise" where
  "ok d = Resolves \<lparr>success = True, data = d\<rparr>"

definition failed :: "response promise" where
  "failed = Resolves \<lparr>success = False, data = JObj []\<rparr>"

definition sample_env ::
  "response promise \<Rightarrow> response promise \<Rightarrow> response promise \<Rightarrow> response promise \<Rightarrow> env" where
  "sample_env p1 p2 p3 p4 =
     \<lparr>getAddressForUser = (\<lambda>u. ''0xAbCdEf01''),
      getPassphraseForUser = (\<lambda>u. ''secret''),
      getAddressForContract = (\<lambda>c. ''0xC0DE''),
      OST_OPENSTUTILITY_ST_PRIME_UUID = JStr ''0xfeed'',
      openSTValue_processStaking = (\<lambda>a p h. p1),
      openSTUtility_processMinting = (\<lambda>a p h. p2),
      openSTUtility_registeredTokenProperty = (\<lambda>u. p3),
      brandedToken_claim = (\<lambda>t a p b. p4),
      simpleToken_balanceOf = (\<lambda>a. p1),
      simpleToken_approve = (\<lambda>a p s n w. p2)\<rparr>"

text \<open>A sample of the library's test: the non-empty strings of decimal digits.\<close>

definition decimal :: "string \<Rightarrow> bool" where
  "decimal s = (s \<noteq> [] \<and> list_all (\<lambda>c. c \<in> set ''0123456789'') s)"

definition sample_event :: "string \<Rightarrow> string \<Rightarrow> eventObj" where
  "sample_event staker uuid =
     \<lparr>returnValues = \<lparr>rv_stakingIntentHash = ''0x1234'', rv_staker = staker,
                       rv_beneficiary = ''0xBEEF'', rv_uuid = uuid\<rparr>\<rparr>"

section \<open>Evaluation lemmas\<close>

lemma equalsIgnoreCase_iff:
  "equalsIgnoreCase a b \<longleftrightarrow> toLowerCase a = toLowerCase (js_String b)"
  by (simp add: equalsIgnoreCase_def)

lemma getProp_Inl_iff:
  "getProp v k = Inl x \<longleftrightarrow> \<not> object_coercible v \<and> x = TypeError k"
  by (cases v) auto

lemma toLowerCase_samples:
  "toLowerCase ''0xAbCdEf01'' = ''0xabcdef01''"
  "toLowerCase ''0xABCDEF01'' = ''0xabcdef01''"
  "toLowerCase ''0xBBB0'' = ''0xbbb0''"
  "toLowerCase ''0xfeed'' = ''0xfeed''"
  "toLowerCase ''0xFEED'' = ''0xfeed''"
  "toLowerCase ''0xCCC0'' = ''0xccc0''"
  by code_simp+

lemma chain_calls_simps:
  "chain_calls [] = []"
  "chain_calls (x # xs) = (if is_chain_call x then x # chain_calls xs else chain_calls xs)"
  "chain_calls (xs @ ys) = chain_calls xs @ chain_calls ys"
  by (simp_all add: chain_calls_def)

lemma invoked_simps:
  "invoked n [] = False"
  "invoked n (x # xs) = (step_of x = n \<or> invoked n xs)"
  "invoked n (xs @ ys) = (invoked n xs \<or> invoked n ys)"
  by (simp_all add: invoked_def)

lemma invoked_chain_calls:
  "0 < n \<Longrightarrow> invoked n tr \<longleftrightarrow> n \<in> set (map step_of (chain_calls tr))"
proof (induction tr)
  case Nil
  show ?case by (simp add: invoked_def chain_calls_def)
next
  case (Cons x tr)
  then show ?case by (cases x) (auto simp add: invoked_def chain_calls_def)
qed

lemma succeeded_resolves: "succeeded p \<Longrightarrow> \<exists>r. p = Resolves r"
  by (cases p) simp_all

lemma resolved_resolves: "resolved p \<Longrightarrow> \<exists>r. p = Resolves r"
  by (cases p) simp_all

section \<open>The runs of the processor, case by case\<close>

lemma processor_case_unauthorized:
  assumes "\<not> equalsIgnoreCase (getAddressForUser e ''staker'')
               (JStr (rv_staker (returnValues eventObj)))"
  shows "chain_calls (fst (processor e eventObj)) = []"
    and "snd (processor e eventObj) =
           Resolves (responseHelper_error ''e_ic_samp_1''
             ''staker is not same as the internal staker account.'')"
  using assms by (simp_all add: processor_def chain_calls_simps)

lemma processor_case_stage1_rejects:
  assumes "equalsIgnoreCase (getAddressForUser e ''staker'')
             (JStr (rv_staker (returnValues eventObj)))"
    and "stage1 e eventObj = Rejects x"
  shows "chain_calls (fst (processor e eventObj)) =
           [ProcessStaking (getAddressForUser e ''staker'') (getPassphraseForUser e ''staker'')
              (rv_stakingIntentHash (returnValues eventObj))]"
    and "snd (processor e eventObj) = Rejects x"
  using assms by (simp_all add: processor_def stage1_def Let_def chain_calls_simps)

lemma processor_case_stage2_rejects:
  assumes "equalsIgnoreCase (getAddressForUser e ''staker'')
             (JStr (rv_staker (returnValues eventObj)))"
    and "stage1 e eventObj = Resolves r1"
    and "stage2 e eventObj = Rejects x"
  shows "chain_calls (fst (processor e eventObj)) =
           [ProcessStaking (getAddressForUser e ''staker'') (getPassphraseForUser e ''staker'')
              (rv_stakingIntentHash (returnValues eventObj)),
            ProcessMinting (getAddressForUser e ''staker'') (getPassphraseForUser e ''staker'')
              (rv_stakingIntentHash (returnValues eventObj))]"
    and "snd (processor e eventObj) = Rejects x"
  using assms by (simp_all add: processor_def stage1_def stage2_def Let_def chain_calls_simps)

lemma processor_case_native:
  assumes "equalsIgnoreCase (getAddressForUser e ''staker'')
             (JStr (rv_staker (returnValues eventObj)))"
    and "stage1 e eventObj = Resolves r1"
    and "stage2 e eventObj = Resolves r2"
    and "equalsIgnoreCase (rv_uuid (returnValues eventObj)) (OST_OPENSTUTILITY_ST_PRIME_UUID e)"
  shows "chain_calls (fst (processor e eventObj)) =
           [ProcessStaking (getAddressForUser e ''staker'') (getPassphraseForUser e ''staker'')
              (rv_stakingIntentHash (returnValues eventObj)),
            ProcessMinting (getAddressForUser e ''staker'') (getPassphraseForUser e ''staker'')
              (rv_stakingIntentHash (returnValues eventObj))]"
    and "snd (processor e eventObj) =
           Resolves (responseHelper_successWithData
             (JObj [(''staking_intent_hash'',
                     JStr (rv_stakingIntentHash (returnValues eventObj)))]))"
  using assms by (simp_all add: processor_def stage1_def stage2_def Let_def chain_calls_simps)

lemma processor_case_lookup_rejects:
  assumes "equalsIgnoreCase (getAddressForUser e ''staker'')
             (JStr (rv_staker (returnValues eventObj)))"
    and "stage1 e eventObj = Resolves r1"
    and "stage2 e eventObj = Resolves r2"
    and "\<not> equalsIgnoreCase (rv_uuid (returnValues eventObj))
             (OST_OPENSTUTILITY_ST_PRIME_UUID e)"
    and "token_lookup e eventObj = Rejects x
         \<or> (\<exists>r3. token_lookup e eventObj = Resolves r3
                 \<and> getProp (data r3) ''erc20Address'' = Inl x)"
  shows "chain_calls (fst (processor e eventObj)) =
           [ProcessStaking (getAddressForUser e ''staker'') (getPassphraseForUser e ''staker'')
              (rv_stakingIntentHash (returnValues eventObj)),
            ProcessMinting (getAddressForUser e ''staker'') (getPassphraseForUser e ''staker'')
              (rv_stakingIntentHash (returnValues eventObj)),
            RegisteredTokenProperty (rv_uuid (returnValues eventObj))]"
    and "snd (processor e eventObj) = Rejects x"
  using assms
  by (auto simp add: processor_def stage1_def stage2_def token_lookup_def Let_def
        chain_calls_simps)

lemma processor_case_claim:
  assumes "equalsIgnoreCase (getAddressForUser e ''staker'')
             (JStr (rv_staker (returnValues eventObj)))"
    and "stage1 e eventObj = Resolves r1"
    and "stage2 e eventObj = Resolves r2"
    and "\<not> equalsIgnoreCase (rv_uuid (returnValues eventObj))
             (OST_OPENSTUTILITY_ST_PRIME_UUID e)"
    and "token_lookup e eventObj = Resolves r3"
    and "getProp (data r3) ''erc20Address'' = Inr erc20Address"
  shows "chain_calls (fst (processor e eventObj)) =
           [ProcessStaking (getAddressForUser e ''staker'') (getPassphraseForUser e ''staker'')
              (rv_stakingIntentHash (returnValues eventObj)),
            ProcessMinting (getAddressForUser e ''staker'') (getPassphraseForUser e ''staker'')
              (rv_stakingIntentHash (returnValues eventObj)),
            RegisteredTokenProperty (rv_uuid (returnValues eventObj)),
            Claim (brandedTokenKlass \<lparr>ERC20 = erc20Address\<rparr>)
              (getAddressForUser e ''staker'') (getPassphraseForUser e ''staker'')
              (rv_beneficiary (returnValues eventObj))]"
    and "snd (processor e eventObj) =
           (case brandedToken_claim e (brandedTokenKlass \<lparr>ERC20 = erc20Address\<rparr>)
                   (getAddressForUser e ''staker'') (getPassphraseForUser e ''staker'')
                   (rv_beneficiary (returnValues eventObj)) of
              Rejects x \<Rightarrow> Rejects x
            | Resolves r4 \<Rightarrow>
                Resolves (responseHelper_successWithData
                  (JObj [(''staking_intent_hash'',
                          JStr (rv_stakingIntentHash (returnValues eventObj)))])))"
  using assms
  by (simp_all add: processor_def stage1_def stage2_def token_lookup_def Let_def
        chain_calls_simps split: promise.split)

lemma processor_cases:
  obtains
    (unauthorized) "\<not> equalsIgnoreCase (getAddressForUser e ''staker'')
                       (JStr (rv_staker (returnValues eventObj)))"
  | (stage1_rejects) x where
      "equalsIgnoreCase (getAddressForUser e ''staker'') (JStr (rv_staker (returnValues eventObj)))"
      "stage1 e eventObj = Rejects x"
  | (stage2_rejects) r1 x where
      "equalsIgnoreCase (getAddressForUser e ''staker'') (JStr (rv_staker (returnValues eventObj)))"
      "stage1 e eventObj = Resolves r1" "stage2 e eventObj = Rejects x"
  | (native) r1 r2 where
      "equalsIgnoreCase (getAddressForUser e ''staker'') (JStr (rv_staker (returnValues eventObj)))"
      "stage1 e eventObj = Resolves r1" "stage2 e eventObj = Resolves r2"
      "equalsIgnoreCase (rv_uuid (returnValues eventObj)) (OST_OPENSTUTILITY_ST_PRIME_UUID e)"
  | (lookup_rejects) r1 r2 x where
      "equalsIgnoreCase (getAddressForUser e ''staker'') (JStr (rv_staker (returnValues eventObj)))"
      "stage1 e eventObj = Resolves r1" "stage2 e eventObj = Resolves r2"
      "\<not> equalsIgnoreCase (rv_uuid (returnValues eventObj)) (OST_OPENSTUTILITY_ST_PRIME_UUID e)"
      "token_lookup e eventObj = Rejects x"
  | (unreadable) r1 r2 r3 x where
      "equalsIgnoreCase (getAddressForUser e ''staker'') (JStr (rv_staker (returnValues eventObj)))"
      "stage1 e eventObj = Resolves r1" "stage2 e eventObj = Resolves r2"
      "\<not> equalsIgnoreCase (rv_uuid (returnValues eventObj)) (OST_OPENSTUTILITY_ST_PRIME_UUID e)"
      "token_lookup e eventObj = Resolves r3" "getProp (data r3) ''erc20Address'' = Inl x"
  | (claim) r1 r2 r3 erc20Address where
      "equalsIgnoreCase (getAddressForUser e ''staker'') (JStr (rv_staker (returnValues eventObj)))"
      "stage1 e eventObj = Resolves r1" "stage2 e eventObj = Resolves r2"
      "\<not> equalsIgnoreCase (rv_uuid (returnValues eventObj)) (OST_OPENSTUTILITY_ST_PRIME_UUID e)"
      "token_lookup e eventObj = Resolves r3"
      "getProp (data r3) ''erc20Address'' = Inr erc20Address"
proof (cases "equalsIgnoreCase (getAddressForUser e ''staker'')
                (JStr (rv_staker (returnValues eventObj)))")
  case False
  then show ?thesis by (rule unauthorized)
next
  case auth: True
  show ?thesis
  proof (cases "stage1 e eventObj")
    case (Rejects x)
    with auth show ?thesis by (rule stage1_rejects)
  next
    case s1: (Resolves r1)
    show ?thesis
    proof (cases "stage2 e eventObj")
      case (Rejects x)
      with auth s1 show ?thesis by (rule stage2_rejects)
    next
      case s2: (Resolves r2)
      show ?thesis
      proof (cases "equalsIgnoreCase (rv_uuid (returnValues eventObj))
                      (OST_OPENSTUTILITY_ST_PRIME_UUID e)")
        case True
        with auth s1 s2 show ?thesis by (rule native)
      next
        case nn: False
        show ?thesis
        proof (cases "token_lookup e eventObj")
          case (Rejects x)
          with auth s1 s2 nn show ?thesis by (rule lookup_rejects)
        next
          case l: (Resolves r3)
          show ?thesis
          proof (cases "getProp (data r3) ''erc20Address''")
            case (Inl x)
            with auth s1 s2 nn l show ?thesis by (rule unreadable)
          next
            case (Inr a)
            with auth s1 s2 nn l show ?thesis by (rule claim)
          qed
        qed
      qed
    qed
  qed
qed

section \<open>Properties of the pipeline processor\<close>

text \<open>
  C1 (as amended). The processor has no \<open>try\<close>/\<open>catch\<close>, so whether it returns a
  result value depends on the calls it awaits. For an event of a foreign staker it
  always resolves, with the error \<open>e_ic_samp_1\<close>. For an event of the configured
  staker the promise it returns resolves exactly when the stage-1 call and the stage-2
  call resolve and, for a non-native uuid, the token lookup resolves with readable
  data and the claim call resolves; it then carries the success result with the
  staking intent hash. In every other case the promise is rejected: a rejection of an
  awaited call is not turned into a value (see \<open>processor_rejection_escapes\<close>).
\<close>

theorem processor_returns_result_iff_calls_resolve:
  "(resolved (snd (processor e eventObj)) \<longleftrightarrow>
      (equalsIgnoreCase (getAddressForUser e ''staker'') (JStr (rv_staker (returnValues eventObj)))
       \<longrightarrow> resolved (stage1 e eventObj) \<and> resolved (stage2 e eventObj)
           \<and> (\<not> equalsIgnoreCase (rv_uuid (returnValues eventObj))
                   (OST_OPENSTUTILITY_ST_PRIME_UUID e)
                \<longrightarrow> (\<exists>r erc20Address. token_lookup e eventObj = Resolves r
                       \<and> getProp (data r) ''erc20Address'' = Inr erc20Address
                       \<and> resolved (brandedToken_claim e
                             (brandedTokenKlass \<lparr>ERC20 = erc20Address\<rparr>)
                             (getAddressForUser e ''staker'') (getPassphraseForUser e ''staker'')
                             (rv_beneficiary (returnValues eventObj)))))))
   \<and> (resolved (snd (processor e eventObj)) \<longrightarrow>
        snd (processor e eventObj) =
          (if equalsIgnoreCase (getAddressForUser e ''staker'')
                (JStr (rv_staker (returnValues eventObj)))
           then Resolves (responseHelper_successWithData
                  (JObj [(''staking_intent_hash'',
                          JStr (rv_stakingIntentHash (returnValues eventObj)))]))
           else Resolves (responseHelper_error ''e_ic_samp_1''
                  ''staker is not same as the internal staker account.'')))"
proof (cases rule: processor_cases [of e eventObj])
  case unauthorized
  from processor_case_unauthorized(2) [OF unauthorized] unauthorized
  show ?thesis by simp
next
  case (stage1_rejects x)
  from processor_case_stage1_rejects(2) [OF stage1_rejects] stage1_rejects
  show ?thesis by simp
next
  case (stage2_rejects r1 x)
  from processor_case_stage2_rejects(2) [OF stage2_rejects] stage2_rejects
  show ?thesis by simp
next
  case (native r1 r2)
  from processor_case_native(2) [OF native] native
  show ?thesis by simp
next
  case (lookup_rejects r1 r2 x)
  have "token_lookup e eventObj = Rejects x
         \<or> (\<exists>r3. token_lookup e eventObj = Resolves r3
                 \<and> getProp (data r3) ''erc20Address'' = Inl x)"
    using lookup_rejects(5) by simp
  from processor_case_lookup_rejects(2) [OF lookup_rejects(1-4) this] lookup_rejects
  show ?thesis by simp
next
  case (unreadable r1 r2 r3 x)
  have "token_lookup e eventObj = Rejects x
         \<or> (\<exists>r3. token_lookup e eventObj = Resolves r3
                 \<and> getProp (data r3) ''erc20Address'' = Inl x)"
    using unreadable(5,6) by simp
  from processor_case_lookup_rejects(2) [OF unreadable(1-4) this] unreadable
  show ?thesis by simp
next
  case (claim r1 r2 r3 erc20Address)
  show ?thesis
  proof (cases "brandedToken_claim e (brandedTokenKlass \<lparr>ERC20 = erc20Address\<rparr>)
                  (getAddressForUser e ''staker'') (getPassphraseForUser e ''staker'')
                  (rv_beneficiary (returnValues eventObj))")
    case (Resolves r4)
    with processor_case_claim(2) [OF claim] claim show ?thesis by simp
  next
    case (Rejects x)
    with processor_case_claim(2) [OF claim] claim show ?thesis by simp
  qed
qed

theorem processor_returns_result_iff_calls_resolve_witness:
  "equalsIgnoreCase ''0xAbCdEf01'' (JStr ''0xABCDEF01'')
   \<and> \<not> equalsIgnoreCase ''0xCCC0'' (JStr ''0xfeed'')
   \<and> resolved (ok JNull)
   \<and> getProp (JObj [(''erc20Address'', JStr ''0xDDD0'')]) ''erc20Address'' = Inr (JStr ''0xDDD0'')
   \<and> resolved (snd (processor (sample_env (ok JNull) (ok JNull)
            (ok (JObj [(''erc20Address'', JStr ''0xDDD0'')])) (ok JNull))
            (sample_event ''0xABCDEF01'' ''0xCCC0'')))
   \<and> snd (processor (sample_env (ok JNull) (ok JNull)
            (ok (JObj [(''erc20Address'', JStr ''0xDDD0'')])) (ok JNull))
            (sample_event ''0xABCDEF01'' ''0xCCC0''))
     = Resolves (responseHelper_successWithData (JObj [(''staking_intent_hash'', JStr ''0x1234'')]))"
  using processor_returns_result_iff_calls_resolve
    [of "sample_env (ok JNull) (ok JNull) (ok (JObj [(''erc20Address'', JStr ''0xDDD0'')]))
           (ok JNull)"
        "sample_event ''0xABCDEF01'' ''0xCCC0''"]
  by (simp add: stage1_def stage2_def token_lookup_def sample_env_def sample_event_def ok_def
        equalsIgnoreCase_iff toLowerCase_samples)

text \<open>
  The claim as first stated fails: with the stage-1 promise rejected, the promise the
  processor returns is rejected with the same reason, and no result value is produced.
\<close>

theorem processor_rejection_escapes:
  "snd (processor (sample_env (Rejects (Reason (JStr ''revert''))) failed failed failed)
         (sample_event ''0xABCDEF01'' ''0xfeed''))
     = Rejects (Reason (JStr ''revert''))"
  by (simp add: processor_def sample_env_def sample_event_def equalsIgnoreCase_iff
        toLowerCase_samples Let_def)

text \<open>
  C2. When the event's staker address differs from the configured staker account
  after both are lower-cased, the processor resolves at once with the error
  \<open>e_ic_samp_1\<close>: its trace is empty, so no contract-interaction call is made
  (no processStaking, processMinting, registeredTokenProperty or claim).
\<close>

theorem processor_unauthorized:
  assumes "toLowerCase (getAddressForUser e ''staker'')
             \<noteq> toLowerCase (rv_staker (returnValues eventObj))"
  shows "processor e eventObj =
           ([], Resolves (responseHelper_error ''e_ic_samp_1''
                  ''staker is not same as the internal staker account.''))
         \<and> chain_calls (fst (processor e eventObj)) = []"
  using assms by (simp add: processor_def equalsIgnoreCase_iff chain_calls_def)

theorem processor_unauthorized_witness:
  "toLowerCase (getAddressForUser (sample_env failed failed failed failed) ''staker'')
     \<noteq> toLowerCase (rv_staker (returnValues (sample_event ''0xBBB0'' ''0xfeed'')))
   \<and> processor (sample_env failed failed failed failed) (sample_event ''0xBBB0'' ''0xfeed'') =
       ([], Resolves (responseHelper_error ''e_ic_samp_1''
              ''staker is not same as the internal staker account.''))
   \<and> chain_calls (fst (processor (sample_env failed failed failed failed)
                          (sample_event ''0xBBB0'' ''0xfeed''))) = []"
proof -
  have h: "toLowerCase (getAddressForUser (sample_env failed failed failed failed) ''staker'')
     \<noteq> toLowerCase (rv_staker (returnValues (sample_event ''0xBBB0'' ''0xfeed'')))"
    by (simp add: sample_env_def sample_event_def toLowerCase_samples)
  from processor_unauthorized [OF h] h show ?thesis by blast
qed

text \<open>
  C3 (as amended). The chain calls of a run are an initial part of the sequence
  process staking, process minting, token lookup, claim, and a step is invoked exactly
  when the step before it was invoked and its promise resolved (for the lookup: and
  the uuid is not the native one; for the claim: and the lookup's data can be read).
  So a step whose promise rejects stops the run. The processor does not look into the
  response a promise resolves with: a step that resolves with an error response does
  not stop the run (see \<open>processor_continues_after_error_response\<close>).
\<close>

theorem processor_short_circuit_on_rejection:
  "(invoked 1 (fst (processor e eventObj)) \<longleftrightarrow>
      equalsIgnoreCase (getAddressForUser e ''staker'') (JStr (rv_staker (returnValues eventObj))))
   \<and> (invoked 2 (fst (processor e eventObj)) \<longleftrightarrow>
      invoked 1 (fst (processor e eventObj)) \<and> resolved (stage1 e eventObj))
   \<and> (invoked 3 (fst (processor e eventObj)) \<longleftrightarrow>
      invoked 2 (fst (processor e eventObj)) \<and> resolved (stage2 e eventObj)
      \<and> \<not> equalsIgnoreCase (rv_uuid (returnValues eventObj)) (OST_OPENSTUTILITY_ST_PRIME_UUID e))
   \<and> (invoked 4 (fst (processor e eventObj)) \<longleftrightarrow>
      invoked 3 (fst (processor e eventObj))
      \<and> (\<exists>r. token_lookup e eventObj = Resolves r \<and> object_coercible (data r)))
   \<and> map step_of (chain_calls (fst (processor e eventObj)))
        \<in> {[], [1], [1, 2], [1, 2, 3], [1, 2, 3, 4]}"
proof (cases rule: processor_cases [of e eventObj])
  case unauthorized
  from processor_case_unauthorized(1) [OF unauthorized] unauthorized
  show ?thesis by (simp add: invoked_chain_calls)
next
  case (stage1_rejects x)
  from processor_case_stage1_rejects(1) [OF stage1_rejects] stage1_rejects
  show ?thesis by (simp add: invoked_chain_calls)
next
  case (stage2_rejects r1 x)
  from processor_case_stage2_rejects(1) [OF stage2_rejects] stage2_rejects
  show ?thesis by (simp add: invoked_chain_calls)
next
  case (native r1 r2)
  from processor_case_native(1) [OF native] native
  show ?thesis by (simp add: invoked_chain_calls)
next
  case (lookup_rejects r1 r2 x)
  have "token_lookup e eventObj = Rejects x
         \<or> (\<exists>r3. token_lookup e eventObj = Resolves r3
                 \<and> getProp (data r3) ''erc20Address'' = Inl x)"
    using lookup_rejects(5) by simp
  from processor_case_lookup_rejects(1) [OF lookup_rejects(1-4) this] lookup_rejects
  show ?thesis by (simp add: invoked_chain_calls)
next
  case (unreadable r1 r2 r3 x)
  have "token_lookup e eventObj = Rejects x
         \<or> (\<exists>r3. token_lookup e eventObj = Resolves r3
                 \<and> getProp (data r3) ''erc20Address'' = Inl x)"
    using unreadable(5,6) by simp
  moreover have "\<not> object_coercible (data r3)"
    using unreadable(6) by (simp add: getProp_Inl_iff)
  ultimately show ?thesis
    using processor_case_lookup_rejects(1) [OF unreadable(1-4)] unreadable
    by (simp add: invoked_chain_calls)
next
  case (claim r1 r2 r3 erc20Address)
  have "object_coercible (data r3)"
    using claim(6) getProp_Inl_iff [of "data r3" "''erc20Address''"] by auto
  with processor_case_claim(1) [OF claim] claim
  show ?thesis by (simp add: invoked_chain_calls)
qed

theorem processor_short_circuit_on_rejection_witness:
  "invoked 1 (fst (processor (sample_env (ok JNull) (Rejects (Reason (JStr ''revert'')))
                     failed failed) (sample_event ''0xABCDEF01'' ''0xCCC0'')))
   \<and> invoked 2 (fst (processor (sample_env (ok JNull) (Rejects (Reason (JStr ''revert'')))
                     failed failed) (sample_event ''0xABCDEF01'' ''0xCCC0'')))
   \<and> resolved (stage1 (sample_env (ok JNull) (Rejects (Reason (JStr ''revert'')))
                     failed failed) (sample_event ''0xABCDEF01'' ''0xCCC0''))
   \<and> \<not> resolved (stage2 (sample_env (ok JNull) (Rejects (Reason (JStr ''revert'')))
                     failed failed) (sample_event ''0xABCDEF01'' ''0xCCC0''))
   \<and> \<not> invoked 3 (fst (processor (sample_env (ok JNull) (Rejects (Reason (JStr ''revert'')))
                     failed failed) (sample_event ''0xABCDEF01'' ''0xCCC0'')))
   \<and> \<not> invoked 4 (fst (processor (sample_env (ok JNull) (Rejects (Reason (JStr ''revert'')))
                     failed failed) (sample_event ''0xABCDEF01'' ''0xCCC0'')))"
  using processor_short_circuit_on_rejection
    [of "sample_env (ok JNull) (Rejects (Reason (JStr ''revert''))) failed failed"
        "sample_event ''0xABCDEF01'' ''0xCCC0''"]
  by (simp add: stage1_def stage2_def sample_env_def sample_event_def ok_def
        equalsIgnoreCase_iff toLowerCase_samples)

text \<open>
  The claim as first stated fails: stage 1 resolves with an error response (it did
  not succeed), and stage 2 is invoked all the same.
\<close>

theorem processor_continues_after_error_response:
  "stage1 (sample_env failed (ok JNull) failed failed) (sample_event ''0xABCDEF01'' ''0xfeed'')
     = Resolves \<lparr>success = False, data = JObj []\<rparr>
   \<and> \<not> succeeded (stage1 (sample_env failed (ok JNull) failed failed)
                     (sample_event ''0xABCDEF01'' ''0xfeed''))
   \<and> invoked 2 (fst (processor (sample_env failed (ok JNull) failed failed)
                       (sample_event ''0xABCDEF01'' ''0xfeed'')))"
  by (simp add: processor_def stage1_def sample_env_def sample_event_def failed_def ok_def
        equalsIgnoreCase_iff toLowerCase_samples invoked_simps Let_def)



text \<open>
  C5. For an event of the configured staker whose uuid equals the configured native
  identifier, when stage 1 and stage 2 succeed the chain calls of the run are process
  staking and process minting only: no token lookup and no claim is invoked, and the
  processor resolves with the success result carrying the staking intent hash.
\<close>

theorem processor_native_no_claim:
  assumes auth: "equalsIgnoreCase (getAddressForUser e ''staker'')
                   (JStr (rv_staker (returnValues eventObj)))"
    and native: "OST_OPENSTUTILITY_ST_PRIME_UUID e = JStr (rv_uuid (returnValues eventObj))"
    and s1: "succeeded (stage1 e eventObj)"
    and s2: "succeeded (stage2 e eventObj)"
  shows "chain_calls (fst (processor e eventObj)) =
           [ProcessStaking (getAddressForUser e ''staker'') (getPassphraseForUser e ''staker'')
              (rv_stakingIntentHash (returnValues eventObj)),
            ProcessMinting (getAddressForUser e ''staker'') (getPassphraseForUser e ''staker'')
              (rv_stakingIntentHash (returnValues eventObj))]
         \<and> \<not> invoked 3 (fst (processor e eventObj))
         \<and> \<not> invoked 4 (fst (processor e eventObj))
         \<and> snd (processor e eventObj) =
             Resolves (responseHelper_successWithData
               (JObj [(''staking_intent_hash'',
                       JStr (rv_stakingIntentHash (returnValues eventObj)))]))"
proof -
  from s1 obtain r1 where r1: "stage1 e eventObj = Resolves r1"
    using succeeded_resolves by blast
  from s2 obtain r2 where r2: "stage2 e eventObj = Resolves r2"
    using succeeded_resolves by blast
  have eq: "equalsIgnoreCase (rv_uuid (returnValues eventObj))
              (OST_OPENSTUTILITY_ST_PRIME_UUID e)"
    using native by (simp add: equalsIgnoreCase_iff)
  from processor_case_native [OF auth r1 r2 eq]
  show ?thesis by (simp add: invoked_chain_calls)
qed

theorem processor_native_no_claim_witness:
  "equalsIgnoreCase ''0xAbCdEf01'' (JStr ''0xABCDEF01'')
   \<and> OST_OPENSTUTILITY_ST_PRIME_UUID (sample_env (ok JNull) (ok JNull) failed failed)
       = JStr (rv_uuid (returnValues (sample_event ''0xABCDEF01'' ''0xfeed'')))
   \<and> succeeded (ok JNull)
   \<and> chain_calls (fst (processor (sample_env (ok JNull) (ok JNull) failed failed)
          (sample_event ''0xABCDEF01'' ''0xfeed''))) =
       [ProcessStaking ''0xAbCdEf01'' ''secret'' ''0x1234'',
        ProcessMinting ''0xAbCdEf01'' ''secret'' ''0x1234'']
   \<and> snd (processor (sample_env (ok JNull) (ok JNull) failed failed)
          (sample_event ''0xABCDEF01'' ''0xfeed'')) =
       Resolves (responseHelper_successWithData (JObj [(''staking_intent_hash'', JStr ''0x1234'')]))"
  using processor_native_no_claim
    [of "sample_env (ok JNull) (ok JNull) failed failed" "sample_event ''0xABCDEF01'' ''0xfeed''"]
  by (simp add: stage1_def stage2_def sample_env_def sample_event_def ok_def
        equalsIgnoreCase_iff toLowerCase_samples)

lemma toLowerCase_more_samples:
  "toLowerCase ''Undefined'' = ''undefined''"
  "toLowerCase ''undefined'' = ''undefined''"
  "toLowerCase ''null'' = ''null''"
  "toLowerCase ''TRUE'' = ''true''"
  "toLowerCase ''true'' = ''true''"
  by code_simp+

text \<open>
  C9. The uuid is compared with the native identifier by \<open>equalsIgnoreCase\<close>: the uuid
  lower-cased against the identifier coerced to a string and lower-cased. For an event
  of the configured staker whose two stages resolve, and a native identifier that is
  a string, \<open>undefined\<close>, \<open>null\<close> or a boolean, the token lookup is invoked exactly when
  the two lower-cased strings differ. When they are equal, in particular when the
  uuid differs from the identifier only in letter case, the run takes the native
  branch: its chain calls are the two stages, without lookup and without claim, and
  the processor resolves. When they differ, the third chain call is the lookup of the
  event's uuid.
\<close>

theorem uuid_comparison_ignores_case:
  assumes auth: "equalsIgnoreCase (getAddressForUser e ''staker'')
                   (JStr (rv_staker (returnValues eventObj)))"
    and s1: "resolved (stage1 e eventObj)"
    and s2: "resolved (stage2 e eventObj)"
    and prim: "primitive (OST_OPENSTUTILITY_ST_PRIME_UUID e)"
  shows "(invoked 3 (fst (processor e eventObj)) \<longleftrightarrow>
            toLowerCase (rv_uuid (returnValues eventObj))
              \<noteq> toLowerCase (js_String (OST_OPENSTUTILITY_ST_PRIME_UUID e)))
         \<and> (toLowerCase (rv_uuid (returnValues eventObj))
               = toLowerCase (js_String (OST_OPENSTUTILITY_ST_PRIME_UUID e)) \<longrightarrow>
             map step_of (chain_calls (fst (processor e eventObj))) = [1, 2]
             \<and> \<not> invoked 4 (fst (processor e eventObj))
             \<and> resolved (snd (processor e eventObj)))
         \<and> (toLowerCase (rv_uuid (returnValues eventObj))
               \<noteq> toLowerCase (js_String (OST_OPENSTUTILITY_ST_PRIME_UUID e)) \<longrightarrow>
             take 3 (chain_calls (fst (processor e eventObj))) =
               [ProcessStaking (getAddressForUser e ''staker'')
                  (getPassphraseForUser e ''staker'')
                  (rv_stakingIntentHash (returnValues eventObj)),
                ProcessMinting (getAddressForUser e ''staker'')
                  (getPassphraseForUser e ''staker'')
                  (rv_stakingIntentHash (returnValues eventObj)),
                RegisteredTokenProperty (rv_uuid (returnValues eventObj))])"
proof -
  from s1 obtain r1 where r1: "stage1 e eventObj = Resolves r1"
    using resolved_resolves by blast
  from s2 obtain r2 where r2: "stage2 e eventObj = Resolves r2"
    using resolved_resolves by blast
  show ?thesis
  proof (cases "equalsIgnoreCase (rv_uuid (returnValues eventObj))
                  (OST_OPENSTUTILITY_ST_PRIME_UUID e)")
    case True
    from processor_case_native [OF auth r1 r2 True] True
    show ?thesis by (simp add: invoked_chain_calls equalsIgnoreCase_iff)
  next
    case nn: False
    show ?thesis
    proof (cases "token_lookup e eventObj")
      case (Rejects x)
      then have "token_lookup e eventObj = Rejects x
         \<or> (\<exists>r3. token_lookup e eventObj = Resolves r3
                 \<and> getProp (data r3) ''erc20Address'' = Inl x)"
        by simp
      from processor_case_lookup_rejects(1) [OF auth r1 r2 nn this] nn
      show ?thesis by (simp add: invoked_chain_calls equalsIgnoreCase_iff)
    next
      case l: (Resolves r3)
      show ?thesis
      proof (cases "getProp (data r3) ''erc20Address''")
        case (Inl x)
        with l have "token_lookup e eventObj = Rejects x
         \<or> (\<exists>r3. token_lookup e eventObj = Resolves r3
                 \<and> getProp (data r3) ''erc20Address'' = Inl x)"
          by simp
        from processor_case_lookup_rejects(1) [OF auth r1 r2 nn this] nn
        show ?thesis by (simp add: invoked_chain_calls equalsIgnoreCase_iff)
      next
        case (Inr a)
        from processor_case_claim(1) [OF auth r1 r2 nn l Inr] nn
        show ?thesis by (simp add: invoked_chain_calls equalsIgnoreCase_iff)
      qed
    qed
  qed
qed

theorem uuid_comparison_ignores_case_witness:
  "equalsIgnoreCase ''0xAbCdEf01'' (JStr ''0xABCDEF01'')
   \<and> resolved (ok JNull)
   \<and> primitive (JStr ''0xfeed'') \<and> primitive JUndefined \<and> primitive JNull
   \<and> ''0xFEED'' \<noteq> ''0xfeed''
   \<and> toLowerCase ''0xFEED'' = ''0xfeed''
   \<and> toLowerCase (js_String (JStr ''0xfeed'')) = ''0xfeed''
   \<and> map step_of (chain_calls (fst (processor (sample_env (ok JNull) (ok JNull) failed failed)
          (sample_event ''0xABCDEF01'' ''0xFEED'')))) = [1, 2]
   \<and> \<not> invoked 3 (fst (processor (sample_env (ok JNull) (ok JNull) failed failed)
          (sample_event ''0xABCDEF01'' ''0xFEED'')))
   \<and> \<not> invoked 4 (fst (processor (sample_env (ok JNull) (ok JNull) failed failed)
          (sample_event ''0xABCDEF01'' ''0xFEED'')))
   \<and> toLowerCase ''0xCCC0'' = ''0xccc0''
   \<and> invoked 3 (fst (processor (sample_env (ok JNull) (ok JNull) failed failed)
          (sample_event ''0xABCDEF01'' ''0xCCC0'')))
   \<and> take 3 (chain_calls (fst (processor (sample_env (ok JNull) (ok JNull) failed failed)
          (sample_event ''0xABCDEF01'' ''0xCCC0'')))) =
       [ProcessStaking ''0xAbCdEf01'' ''secret'' ''0x1234'',
        ProcessMinting ''0xAbCdEf01'' ''secret'' ''0x1234'',
        RegisteredTokenProperty ''0xCCC0'']
   \<and> js_String JUndefined = ''undefined''
   \<and> toLowerCase ''Undefined'' = ''undefined''
   \<and> map step_of (chain_calls (fst (processor
          ((sample_env (ok JNull) (ok JNull) failed failed)
             \<lparr>OST_OPENSTUTILITY_ST_PRIME_UUID := JUndefined\<rparr>)
          (sample_event ''0xABCDEF01'' ''Undefined'')))) = [1, 2]
   \<and> js_String JNull = ''null''
   \<and> invoked 3 (fst (processor
          ((sample_env (ok JNull) (ok JNull) failed failed)
             \<lparr>OST_OPENSTUTILITY_ST_PRIME_UUID := JNull\<rparr>)
          (sample_event ''0xABCDEF01'' ''0xfeed'')))
   \<and> primitive (JBool True)
   \<and> js_String (JBool True) = ''true'' \<and> js_String (JBool False) = ''false''
   \<and> toLowerCase ''TRUE'' = ''true''
   \<and> map step_of (chain_calls (fst (processor
          ((sample_env (ok JNull) (ok JNull) failed failed)
             \<lparr>OST_OPENSTUTILITY_ST_PRIME_UUID := JBool True\<rparr>)
          (sample_event ''0xABCDEF01'' ''TRUE'')))) = [1, 2]"
  using uuid_comparison_ignores_case
    [of "sample_env (ok JNull) (ok JNull) failed failed" "sample_event ''0xABCDEF01'' ''0xFEED''"]
    uuid_comparison_ignores_case
    [of "sample_env (ok JNull) (ok JNull) failed failed" "sample_event ''0xABCDEF01'' ''0xCCC0''"]
    uuid_comparison_ignores_case
    [of "(sample_env (ok JNull) (ok JNull) failed failed)
           \<lparr>OST_OPENSTUTILITY_ST_PRIME_UUID := JUndefined\<rparr>"
        "sample_event ''0xABCDEF01'' ''Undefined''"]
    uuid_comparison_ignores_case
    [of "(sample_env (ok JNull) (ok JNull) failed failed)
           \<lparr>OST_OPENSTUTILITY_ST_PRIME_UUID := JNull\<rparr>"
        "sample_event ''0xABCDEF01'' ''0xfeed''"]
    uuid_comparison_ignores_case
    [of "(sample_env (ok JNull) (ok JNull) failed failed)
           \<lparr>OST_OPENSTUTILITY_ST_PRIME_UUID := JBool True\<rparr>"
        "sample_event ''0xABCDEF01'' ''TRUE''"]
  by (simp add: stage1_def stage2_def sample_env_def sample_event_def ok_def
        equalsIgnoreCase_iff toLowerCase_samples toLowerCase_more_samples)

section \<open>Properties of the stake approval service\<close>

lemma new_BigNumber_Inr_iff:
  "new_BigNumber isNumeric v = Inr big \<longleftrightarrow> (\<exists>s. v = JStr s \<and> isNumeric s \<and> big = BigNumber s)"
  by (cases v) auto

lemma is_approve_chain_calls:
  "list_ex is_approve tr \<longleftrightarrow> list_ex is_approve (chain_calls tr)"
proof (induction tr)
  case Nil
  show ?case by (simp add: chain_calls_def)
next
  case (Cons x tr)
  then show ?case by (cases x) (simp_all add: chain_calls_def)
qed

lemma getSTBalance_rejects:
  assumes "simpleToken_balanceOf e address = Rejects x
           \<or> (\<exists>result. simpleToken_balanceOf e address = Resolves result
                 \<and> (getProp (data result) ''balance'' = Inl x
                    \<or> (\<exists>v. getProp (data result) ''balance'' = Inr v
                           \<and> new_BigNumber isNumeric v = Inl x)))"
  shows "chain_calls (fst (getSTBalance isNumeric e address)) = [BalanceOf address]"
    and "snd (getSTBalance isNumeric e address) = Rejects x"
  using assms by (auto simp add: getSTBalance_def chain_calls_simps Let_def)

lemma getSTBalance_resolves:
  assumes "simpleToken_balanceOf e address = Resolves result"
    and "getProp (data result) ''balance'' = Inr (JStr s)"
    and "isNumeric s"
  shows "chain_calls (fst (getSTBalance isNumeric e address)) = [BalanceOf address]"
    and "snd (getSTBalance isNumeric e address) = Resolves (BigNumber s)"
  using assms by (simp_all add: getSTBalance_def chain_calls_simps Let_def)

lemma getSTBalance_cases:
  obtains
    (rejects) x where
      "chain_calls (fst (getSTBalance isNumeric e address)) = [BalanceOf address]"
      "snd (getSTBalance isNumeric e address) = Rejects x"
      "\<not> (\<exists>result s. simpleToken_balanceOf e address = Resolves result
              \<and> getProp (data result) ''balance'' = Inr (JStr s) \<and> isNumeric s)"
  | (resolves) result s where
      "simpleToken_balanceOf e address = Resolves result"
      "getProp (data result) ''balance'' = Inr (JStr s)" "isNumeric s"
proof (cases "simpleToken_balanceOf e address")
  case (Rejects x)
  then have *: "simpleToken_balanceOf e address = Rejects x
           \<or> (\<exists>result. simpleToken_balanceOf e address = Resolves result
                 \<and> (getProp (data result) ''balance'' = Inl x
                    \<or> (\<exists>v. getProp (data result) ''balance'' = Inr v
                           \<and> new_BigNumber isNumeric v = Inl x)))"
    by simp
  from getSTBalance_rejects [OF *] Rejects show ?thesis
    by (intro rejects [of x]) simp_all
next
  case res: (Resolves result)
  show ?thesis
  proof (cases "getProp (data result) ''balance''")
    case (Inl x)
    with res have *: "simpleToken_balanceOf e address = Rejects x
           \<or> (\<exists>result. simpleToken_balanceOf e address = Resolves result
                 \<and> (getProp (data result) ''balance'' = Inl x
                    \<or> (\<exists>v. getProp (data result) ''balance'' = Inr v
                           \<and> new_BigNumber isNumeric v = Inl x)))"
      by simp
    from getSTBalance_rejects [OF *] res Inl show ?thesis
      by (intro rejects [of x]) simp_all
  next
    case (Inr v)
    show ?thesis
    proof (cases "new_BigNumber isNumeric v")
      case bad: (Inl x)
      with res Inr have *: "simpleToken_balanceOf e address = Rejects x
           \<or> (\<exists>result. simpleToken_balanceOf e address = Resolves result
                 \<and> (getProp (data result) ''balance'' = Inl x
                    \<or> (\<exists>v. getProp (data result) ''balance'' = Inr v
                           \<and> new_BigNumber isNumeric v = Inl x)))"
        by simp
      have "\<not> (\<exists>s. v = JStr s \<and> isNumeric s)"
        using bad new_BigNumber_Inr_iff [of isNumeric v] by auto
      with getSTBalance_rejects [OF *] res Inr show ?thesis
        by (intro rejects [of x]) simp_all
    next
      case (Inr big)
      then obtain s where "v = JStr s" "isNumeric s"
        using new_BigNumber_Inr_iff [of isNumeric v big] by auto
      with res \<open>getProp (data result) ''balance'' = Inr v\<close> show ?thesis
        by (intro resolves [of result s]) simp_all
    qed
  qed
qed

lemma approveOpenStValueContract_rejects:
  assumes "chain_calls (fst (getSTBalance isNumeric e (getAddressForUser e ''staker'')))
             = [BalanceOf (getAddressForUser e ''staker'')]"
    and "snd (getSTBalance isNumeric e (getAddressForUser e ''staker'')) = Rejects x"
  shows "chain_calls (fst (approveOpenStValueContract isNumeric e))
           = [BalanceOf (getAddressForUser e ''staker'')]"
    and "snd (approveOpenStValueContract isNumeric e) = Rejects x"
proof -
  obtain t where g: "getSTBalance isNumeric e (getAddressForUser e ''staker'') = (t, Rejects x)"
    using assms(2) by (cases "getSTBalance isNumeric e (getAddressForUser e ''staker'')") simp
  with assms(1) have t: "chain_calls t = [BalanceOf (getAddressForUser e ''staker'')]" by simp
  show "chain_calls (fst (approveOpenStValueContract isNumeric e))
           = [BalanceOf (getAddressForUser e ''staker'')]"
    using t by (simp add: approveOpenStValueContract_def g Let_def)
  show "snd (approveOpenStValueContract isNumeric e) = Rejects x"
    by (simp add: approveOpenStValueContract_def g Let_def)
qed

lemma approveOpenStValueContract_approves:
  assumes "chain_calls (fst (getSTBalance isNumeric e (getAddressForUser e ''staker'')))
             = [BalanceOf (getAddressForUser e ''staker'')]"
    and "snd (getSTBalance isNumeric e (getAddressForUser e ''staker'')) = Resolves big"
  shows "chain_calls (fst (approveOpenStValueContract isNumeric e))
           = [BalanceOf (getAddressForUser e ''staker''),
              Approve (getAddressForUser e ''staker'') (getPassphraseForUser e ''staker'')
                (getAddressForContract e ''openSTValue'') big True]"
    and "snd (approveOpenStValueContract isNumeric e)
           = simpleToken_approve e (getAddressForUser e ''staker'')
               (getPassphraseForUser e ''staker'') (getAddressForContract e ''openSTValue'')
               big True"
proof -
  obtain t where g: "getSTBalance isNumeric e (getAddressForUser e ''staker'')
                       = (t, Resolves big)"
    using assms(2) by (cases "getSTBalance isNumeric e (getAddressForUser e ''staker'')") simp
  with assms(1) have t: "chain_calls t = [BalanceOf (getAddressForUser e ''staker'')]" by simp
  show "chain_calls (fst (approveOpenStValueContract isNumeric e))
           = [BalanceOf (getAddressForUser e ''staker''),
              Approve (getAddressForUser e ''staker'') (getPassphraseForUser e ''staker'')
                (getAddressForContract e ''openSTValue'') big True]"
    using t by (simp add: approveOpenStValueContract_def g approve_def chain_calls_simps Let_def)
  show "snd (approveOpenStValueContract isNumeric e)
           = simpleToken_approve e (getAddressForUser e ''staker'')
               (getPassphraseForUser e ''staker'') (getAddressForContract e ''openSTValue'')
               big True"
    by (simp add: approveOpenStValueContract_def g approve_def Let_def)
qed

text \<open>
  C10. In every invocation of the service, an \<open>approve\<close> is made exactly when the
  staker's \<open>balanceOf\<close> call resolved with a result whose \<open>data.balance\<close> is a string that
  \<open>new BigNumber\<close> accepts. Then the chain calls are that \<open>balanceOf\<close> and one \<open>approve\<close>
  from the staker account to the openSTValue contract address, whose amount is the
  BigNumber of exactly that balance and whose last argument is \<open>true\<close> (do not wait
  for the transaction to be mined), and the service returns the promise of that
  \<open>approve\<close> call. In every other invocation (\<open>balanceOf\<close> rejects, the data cannot be
  read, or the balance is not a number) the only chain call is \<open>balanceOf\<close>, no
  allowance is granted and the promise the service returns is rejected.
\<close>

theorem approve_amount_is_balance:
  "(simpleToken_balanceOf e (getAddressForUser e ''staker'') = Resolves result
      \<and> getProp (data result) ''balance'' = Inr (JStr s) \<and> isNumeric s
    \<longrightarrow> chain_calls (fst (approveOpenStValueContract isNumeric e)) =
          [BalanceOf (getAddressForUser e ''staker''),
           Approve (getAddressForUser e ''staker'') (getPassphraseForUser e ''staker'')
             (getAddressForContract e ''openSTValue'') (BigNumber s) True]
        \<and> snd (approveOpenStValueContract isNumeric e) =
            simpleToken_approve e (getAddressForUser e ''staker'')
              (getPassphraseForUser e ''staker'') (getAddressForContract e ''openSTValue'')
              (BigNumber s) True)
   \<and> (list_ex is_approve (fst (approveOpenStValueContract isNumeric e)) \<longleftrightarrow>
        (\<exists>result s. simpleToken_balanceOf e (getAddressForUser e ''staker'') = Resolves result
           \<and> getProp (data result) ''balance'' = Inr (JStr s) \<and> isNumeric s))
   \<and> (\<not> list_ex is_approve (fst (approveOpenStValueContract isNumeric e)) \<longrightarrow>
        chain_calls (fst (approveOpenStValueContract isNumeric e))
          = [BalanceOf (getAddressForUser e ''staker'')]
        \<and> \<not> resolved (snd (approveOpenStValueContract isNumeric e)))"
proof (cases rule: getSTBalance_cases [of isNumeric e "getAddressForUser e ''staker''"])
  case (rejects x)
  from approveOpenStValueContract_rejects [OF rejects(1,2)] rejects(3)
  show ?thesis by (simp add: is_approve_chain_calls)
next
  case (resolves r' s')
  from getSTBalance_resolves [of e "getAddressForUser e ''staker''" r' s' isNumeric, OF resolves]
  have "chain_calls (fst (approveOpenStValueContract isNumeric e))
           = [BalanceOf (getAddressForUser e ''staker''),
              Approve (getAddressForUser e ''staker'') (getPassphraseForUser e ''staker'')
                (getAddressForContract e ''openSTValue'') (BigNumber s') True]"
    and "snd (approveOpenStValueContract isNumeric e)
           = simpleToken_approve e (getAddressForUser e ''staker'')
               (getPassphraseForUser e ''staker'') (getAddressForContract e ''openSTValue'')
               (BigNumber s') True"
    by (rule approveOpenStValueContract_approves)+
  with resolves show ?thesis
    by (auto simp add: is_approve_chain_calls)
qed

lemma decimal_samples: "decimal ''1000''" "\<not> decimal ''abc''"
  by (simp_all add: decimal_def)

theorem approve_amount_is_balance_witness:
  "getProp (JObj [(''balance'', JStr ''1000'')]) ''balance'' = Inr (JStr ''1000'')
   \<and> decimal ''1000''
   \<and> chain_calls (fst (approveOpenStValueContract decimal
         (sample_env (ok (JObj [(''balance'', JStr ''1000'')])) (ok JNull) failed failed))) =
       [BalanceOf ''0xAbCdEf01'',
        Approve ''0xAbCdEf01'' ''secret'' ''0xC0DE'' (BigNumber ''1000'') True]
   \<and> snd (approveOpenStValueContract decimal
         (sample_env (ok (JObj [(''balance'', JStr ''1000'')])) (ok JNull) failed failed))
       = ok JNull
   \<and> fst (approveOpenStValueContract decimal
         (sample_env (ok (JObj [(''balance'', JStr ''1000'')])) (ok JNull) failed failed)) =
       [Logger Step [JStr ''Getting ST Balance of Staker account: '', JStr ''0xAbCdEf01''],
        BalanceOf ''0xAbCdEf01'',
        Logger Win [JStr ''ST Balance of Staker account: '', JStr ''0xAbCdEf01'',
                    JStr '' obtained.''],
        Approve ''0xAbCdEf01'' ''secret'' ''0xC0DE'' (BigNumber ''1000'') True]
   \<and> list_ex is_approve (fst (approveOpenStValueContract decimal
         (sample_env (ok (JObj [(''balance'', JStr ''1000'')])) (ok JNull) failed failed)))
   \<and> \<not> list_ex is_approve (fst (approveOpenStValueContract decimal
         (sample_env failed (ok JNull) failed failed)))
   \<and> chain_calls (fst (approveOpenStValueContract decimal
         (sample_env failed (ok JNull) failed failed))) = [BalanceOf ''0xAbCdEf01'']
   \<and> snd (approveOpenStValueContract decimal (sample_env failed (ok JNull) failed failed))
       = Rejects (NotANumber JUndefined)
   \<and> fst (approveOpenStValueContract decimal (sample_env failed (ok JNull) failed failed)) =
       [Logger Step [JStr ''Getting ST Balance of Staker account: '', JStr ''0xAbCdEf01''],
        BalanceOf ''0xAbCdEf01'',
        Logger Win [JStr ''ST Balance of Staker account: '', JStr ''0xAbCdEf01'',
                    JStr '' obtained.'']]
   \<and> approveOpenStValueContract decimal (sample_env (ok JUndefined) (ok JNull) failed failed) =
       ([Logger Step [JStr ''Getting ST Balance of Staker account: '', JStr ''0xAbCdEf01''],
         BalanceOf ''0xAbCdEf01''],
        Rejects (TypeError ''balance''))
   \<and> \<not> decimal ''abc''
   \<and> chain_calls (fst (approveOpenStValueContract decimal
         (sample_env (ok (JObj [(''balance'', JStr ''abc'')])) (ok JNull) failed failed)))
       = [BalanceOf ''0xAbCdEf01'']
   \<and> snd (approveOpenStValueContract decimal
         (sample_env (ok (JObj [(''balance'', JStr ''abc'')])) (ok JNull) failed failed))
       = Rejects (NotANumber (JStr ''abc''))
   \<and> chain_calls (fst (approveOpenStValueContract decimal
         (sample_env (Rejects (Reason (JStr ''timeout''))) (ok JNull) failed failed)))
       = [BalanceOf ''0xAbCdEf01'']
   \<and> snd (approveOpenStValueContract decimal
         (sample_env (Rejects (Reason (JStr ''timeout''))) (ok JNull) failed failed))
       = Rejects (Reason (JStr ''timeout''))"
  using approve_amount_is_balance
    [of "sample_env (ok (JObj [(''balance'', JStr ''1000'')])) (ok JNull) failed failed"
        "\<lparr>success = True, data = JObj [(''balance'', JStr ''1000'')]\<rparr>" "''1000''" decimal]
    approve_amount_is_balance
    [of "sample_env failed (ok JNull) failed failed"
        "\<lparr>success = False, data = JObj []\<rparr>" "''1000''" decimal]
  by (simp add: sample_env_def ok_def failed_def decimal_samples
        approveOpenStValueContract_def getSTBalance_def approve_def chain_calls_simps Let_def)

section \<open>Properties of the event subscription\<close>

lemma queue_of_emit:
  "eventQueue s = eventQueue s' \<Longrightarrow>
   eventQueue (emit (fst (bindEvents f s0)) n s) = eventQueue (emit (fst (bindEvents f s0)) n s')"
  by (cases n) (simp_all add: bindEvents_def listenToDesiredEvent_def Let_def onEvent_def
      onEventSubscriptionError_def)

lemma queue_of_deliver:
  "eventQueue s = eventQueue s' \<Longrightarrow>
   eventQueue (deliver (fst (bindEvents f s0)) ns s)
     = eventQueue (deliver (fst (bindEvents f s0)) ns s')"
  unfolding deliver_def
proof (induction ns arbitrary: s s')
  case Nil
  then show ?case by simp
next
  case (Cons n ns)
  have "eventQueue (emit (fst (bindEvents f s0)) n s)
          = eventQueue (emit (fst (bindEvents f s0)) n s')"
    by (rule queue_of_emit [OF Cons.prems])
  then have "eventQueue (fold (emit (fst (bindEvents f s0))) ns (emit (fst (bindEvents f s0)) n s))
          = eventQueue (fold (emit (fst (bindEvents f s0))) ns (emit (fst (bindEvents f s0)) n s'))"
    by (rule Cons.IH)
  then show ?case by simp
qed

lemma queue_of_error:
  "eventQueue (emit (fst (bindEvents f s0)) (Error_n x) s) = eventQueue s"
  by (simp add: bindEvents_def listenToDesiredEvent_def Let_def onEventSubscriptionError_def)

lemma deliver_without_errors:
  "eventQueue (deliver (fst (bindEvents f s0)) ns s)
     = eventQueue (deliver (fst (bindEvents f s0)) (filter (\<lambda>n. \<not> is_error_n n) ns) s)"
proof (induction ns arbitrary: s)
  case Nil
  show ?case by simp
next
  case (Cons n ns)
  show ?case
  proof (cases n)
    case (Error_n x)
    have "eventQueue (deliver (fst (bindEvents f s0)) (n # ns) s)
            = eventQueue (deliver (fst (bindEvents f s0)) ns
                (emit (fst (bindEvents f s0)) n s))"
      by (simp add: deliver_def)
    also have "\<dots> = eventQueue (deliver (fst (bindEvents f s0)) ns s)"
      unfolding Error_n by (rule queue_of_deliver) (rule queue_of_error)
    finally show ?thesis using Error_n Cons.IH by simp
  next
    case (Data_n ev)
    then show ?thesis using Cons.IH by (simp add: deliver_def)
  next
    case (Changed_n ev)
    then show ?thesis using Cons.IH by (simp add: deliver_def)
  qed
qed

text \<open>
  C7. On the subscription that \<open>bindEvents\<close> sets up, a \<open>changed\<close> notification is
  handled exactly as a \<open>data\<close> notification with the same event: the two handlers are
  the same function, \<open>onEvent\<close>, and both hand the event to \<open>addEditEventInQueue\<close>.
\<close>

theorem changed_same_as_data:
  "emit (fst (bindEvents addEditEventInQueue s0)) (Changed_n eventObj) s
     = emit (fst (bindEvents addEditEventInQueue s0)) (Data_n eventObj) s
   \<and> on_changed (fst (bindEvents addEditEventInQueue s0))
       = on_data (fst (bindEvents addEditEventInQueue s0))
   \<and> emit (fst (bindEvents addEditEventInQueue s0)) (Changed_n eventObj) s
       = s\<lparr>eventQueue := addEditEventInQueue eventObj (eventQueue s)\<rparr>"
  by (simp add: bindEvents_def listenToDesiredEvent_def Let_def onEvent_def)

text \<open>
  C8. On the subscription that \<open>bindEvents\<close> sets up, an \<open>error\<close> notification only
  appends two lines to the console: the handler returns normally, the queue is left
  as it was, and the queue reached by any sequence of notifications is the queue
  reached by the same sequence without its error notifications.
\<close>

theorem subscription_error_only_logs:
  "emit (fst (bindEvents addEditEventInQueue s0)) (Error_n error) s
     = s\<lparr>console := console s @
          [Logger Log [JStr ''onEventSubscriptionError triggered''], Logger Err [error]]\<rparr>
   \<and> eventQueue (emit (fst (bindEvents addEditEventInQueue s0)) (Error_n error) s)
       = eventQueue s
   \<and> eventQueue (deliver (fst (bindEvents addEditEventInQueue s0)) ns s)
       = eventQueue (deliver (fst (bindEvents addEditEventInQueue s0))
           (filter (\<lambda>n. \<not> is_error_n n) ns) s)"
proof (intro conjI)
  show "emit (fst (bindEvents addEditEventInQueue s0)) (Error_n error) s
     = s\<lparr>console := console s @
          [Logger Log [JStr ''onEventSubscriptionError triggered''], Logger Err [error]]\<rparr>"
    by (simp add: bindEvents_def listenToDesiredEvent_def Let_def onEventSubscriptionError_def)
  show "eventQueue (emit (fst (bindEvents addEditEventInQueue s0)) (Error_n error) s)
       = eventQueue s"
    by (rule queue_of_error)
  show "eventQueue (deliver (fst (bindEvents addEditEventInQueue s0)) ns s)
       = eventQueue (deliver (fst (bindEvents addEditEventInQueue s0))
           (filter (\<lambda>n. \<not> is_error_n n) ns) s)"
    by (rule deliver_without_errors)
qed

section \<open>Properties of the delay queue\<close>

lemma has_live_iff: "has_live k q \<longleftrightarrow> 0 < live_count k q"
  by (induction q) (auto simp add: has_live_def live_count_def)

lemma live_count_append:
  "live_count k (q @ q') = live_count k q + live_count k q'"
  by (simp add: live_count_def)

lemma live_count_enqueue:
  "live_count k q \<le> 1 \<Longrightarrow> live_count k (enqueue key_of event h q) \<le> 1"
proof (cases "has_live (key_of event) q")
  case True
  assume "live_count k q \<le> 1"
  with True show ?thesis by (simp add: enqueue_def)
next
  case False
  assume inv: "live_count k q \<le> 1"
  show ?thesis
  proof (cases "k = key_of event")
    case True
    with False have "live_count k q = 0" by (simp add: has_live_iff)
    with True False show ?thesis
      by (simp add: enqueue_def live_count_append) (simp add: live_count_def)
  next
    case neq: False
    with False inv show ?thesis
      by (simp add: enqueue_def live_count_append) (simp add: live_count_def)
  qed
qed

lemma live_count_tick: "live_count k (tick delayBlocks h q) = live_count k q"
  by (induction q) (simp_all add: tick_def live_count_def live_def)

lemma live_count_claim: "live_count k (snd (claim q)) = live_count k q"
proof (induction q)
  case Nil
  show ?case by simp
next
  case (Cons x q)
  then show ?case
    by (cases "claim q") (simp add: live_count_def live_def)
qed

lemma live_count_complete: "live_count k (complete k' result q) \<le> live_count k q"
proof (induction q)
  case Nil
  show ?case by (simp add: complete_def)
next
  case (Cons x q)
  then show ?case
    by (cases result) (auto simp add: complete_def live_count_def live_def)
qed

lemma live_count_step:
  assumes inv: "live_count k q \<le> 1"
  shows "live_count k (queue_step key_of delayBlocks op q) \<le> 1"
proof (cases op)
  case (Enqueue event h)
  from inv have "live_count k (enqueue key_of event h q) \<le> 1"
    by (rule live_count_enqueue)
  then show ?thesis unfolding Enqueue by simp
next
  case (Tick h)
  from inv show ?thesis unfolding Tick by (simp add: live_count_tick)
next
  case Claim_op
  from inv show ?thesis unfolding Claim_op by (simp add: live_count_claim)
next
  case (Complete k' result)
  from inv live_count_complete [of k k' result q] show ?thesis unfolding Complete by simp
qed

lemma live_count_run:
  "live_count k q \<le> 1 \<Longrightarrow> live_count k (queue_run key_of delayBlocks ops q) \<le> 1"
  unfolding queue_run_def
proof (induction ops arbitrary: q)
  case Nil
  then show ?case by simp
next
  case (Cons op ops)
  from Cons.prems have "live_count k (queue_step key_of delayBlocks op q) \<le> 1"
    by (rule live_count_step)
  then have "live_count k (fold (queue_step key_of delayBlocks) ops
               (queue_step key_of delayBlocks op q)) \<le> 1"
    by (rule Cons.IH)
  then show ?case by simp
qed

text \<open>
  C6. After any sequence of enqueue, tick, claim and complete operations on the empty
  delay queue, every identity key has at most one live (\<open>Pending\<close>, \<open>Due\<close> or
  \<open>Processing\<close>) entry; and enqueueing an event whose key has a live entry leaves the
  queue unchanged, still with exactly one live entry for that key.
\<close>

theorem queue_one_live_entry_per_key:
  "live_count k (queue_run key_of delayBlocks ops []) \<le> 1
   \<and> (has_live (key_of event) (queue_run key_of delayBlocks ops []) \<longrightarrow>
        enqueue key_of event h (queue_run key_of delayBlocks ops [])
          = queue_run key_of delayBlocks ops []
        \<and> live_count (key_of event)
            (enqueue key_of event h (queue_run key_of delayBlocks ops [])) = 1)"
proof (intro conjI impI)
  have inv: "live_count k' (queue_run key_of delayBlocks ops []) \<le> 1" for k'
    by (rule live_count_run) (simp add: live_count_def)
  from inv show "live_count k (queue_run key_of delayBlocks ops []) \<le> 1" .
  assume l: "has_live (key_of event) (queue_run key_of delayBlocks ops [])"
  then show same: "enqueue key_of event h (queue_run key_of delayBlocks ops [])
          = queue_run key_of delayBlocks ops []"
    by (simp add: enqueue_def)
  from l inv [of "key_of event"]
  show "live_count (key_of event)
          (enqueue key_of event h (queue_run key_of delayBlocks ops [])) = 1"
    unfolding same by (simp add: has_live_iff)
qed

theorem queue_one_live_entry_per_key_witness:
  "has_live (event_identityKey (sample_event ''0xABCDEF01'' ''0xfeed''))
     (queue_run event_identityKey 6
        [Enqueue (sample_event ''0xABCDEF01'' ''0xfeed'') 100, Tick 106, Claim_op] [])
   \<and> enqueue event_identityKey (sample_event ''0xABCDEF01'' ''0xfeed'') 107
       (queue_run event_identityKey 6
          [Enqueue (sample_event ''0xABCDEF01'' ''0xfeed'') 100, Tick 106, Claim_op] [])
     = [\<lparr>identityKey = ''0x1234'', payload = sample_event ''0xABCDEF01'' ''0xfeed'',
         observedHeight = 100, state = Processing\<rparr>]
   \<and> live_count ''0x1234''
       (queue_run event_identityKey 6
          [Enqueue (sample_event ''0xABCDEF01'' ''0xfeed'') 100, Tick 106, Claim_op] []) \<le> 1"
  using queue_one_live_entry_per_key
    [of "''0x1234''" event_identityKey 6
        "[Enqueue (sample_event ''0xABCDEF01'' ''0xfeed'') 100, Tick 106, Claim_op]"
        "sample_event ''0xABCDEF01'' ''0xfeed''" 107]
  by (simp add: queue_run_def enqueue_def tick_def has_live_def live_def
        event_identityKey_def sample_event_def)

end
